theory Spec2Isabelle
  imports Complex_Main
begin

section \<open>Scalars, errors and Dual Numbers (src/diff.py)\<close>

text \<open>
  Python floats and ints are modelled by the exact reals, Python complex numbers by
  \<^typ>\<open>complex\<close>. A plain scalar carries the tag that \<^verbatim>\<open>isinstance(v, complex)\<close>
  reads; arithmetic between a real and a complex scalar promotes to complex, as Python does.
  Rounding is left out. The range of a float is modelled where it decides whether a
  statement raises: in the square \<^verbatim>\<open>v ** 2\<close> of the two divisions, which raises
  OverflowError when the result is out of range and is \<open>0.0\<close> when it underflows.
\<close>

datatype scalar = Rl real | Cx complex

datatype error =
    ZeroDivisionError string
  | ValueError string
  | TypeError
  | AttributeError
  | RuntimeError string
  | OverflowError

text \<open>
  \<^verbatim>\<open>raise ZeroDivisionError("Division by Zero")\<close>, the error of the guards of the two
  divisions. The interpreter's own division raises the same class with its own message.
\<close>

abbreviation DivisionByZero :: error where
  "DivisionByZero \<equiv> ZeroDivisionError ''Division by Zero''"

abbreviation DomainError :: error where
  "DomainError \<equiv> ValueError ''Logarithm is undefined for non-positive values.''"

abbreviation BracketError :: error where
  "BracketError \<equiv> ValueError ''Function values at endpoints must have opposite signs.''"

abbreviation ConvergenceError :: error where
  "ConvergenceError \<equiv> RuntimeError ''Newton's method did not converge.''"

fun to_cx :: "scalar \<Rightarrow> complex" where
  "to_cx (Rl a) = of_real a"
| "to_cx (Cx c) = c"

fun sc_add :: "scalar \<Rightarrow> scalar \<Rightarrow> scalar" where
  "sc_add (Rl a) (Rl b) = Rl (a + b)"
| "sc_add x y = Cx (to_cx x + to_cx y)"

fun sc_sub :: "scalar \<Rightarrow> scalar \<Rightarrow> scalar" where
  "sc_sub (Rl a) (Rl b) = Rl (a - b)"
| "sc_sub x y = Cx (to_cx x - to_cx y)"

fun sc_mul :: "scalar \<Rightarrow> scalar \<Rightarrow> scalar" where
  "sc_mul (Rl a) (Rl b) = Rl (a * b)"
| "sc_mul x y = Cx (to_cx x * to_cx y)"

fun sc_neg :: "scalar \<Rightarrow> scalar" where
  "sc_neg (Rl a) = Rl (- a)"
| "sc_neg (Cx c) = Cx (- c)"

text \<open>\<^verbatim>\<open>v == 0\<close> on a plain scalar.\<close>

fun is_zero :: "scalar \<Rightarrow> bool" where
  "is_zero (Rl a) = (a = 0)"
| "is_zero (Cx c) = (c = 0)"

text \<open>
  \<^verbatim>\<open>x / y\<close> on plain scalars: the interpreter raises ZeroDivisionError, with its own
  message, on a zero divisor.
\<close>

fun sc_truediv :: "scalar \<Rightarrow> scalar \<Rightarrow> error + scalar" where
  "sc_truediv (Rl a) (Rl b) =
     (if b = 0 then Inl (ZeroDivisionError ''float division by zero'') else Inr (Rl (a / b)))"
| "sc_truediv x y =
     (if to_cx y = 0 then Inl (ZeroDivisionError ''complex division by zero'')
      else Inr (Cx (to_cx x / to_cx y)))"

text \<open>
  The range of a binary64 float applied to an exact result \<open>r\<close>: from
  \<open>2\<^sup>1\<^sup>0\<^sup>2\<^sup>4 - 2\<^sup>9\<^sup>7\<^sup>0\<close> on the nearest float is infinite and the power raises OverflowError;
  up to \<open>2\<^sup>-\<^sup>1\<^sup>0\<^sup>7\<^sup>5\<close> the nearest float is \<open>0.0\<close>.
\<close>

definition fl_range :: "real \<Rightarrow> error + real" where
  "fl_range r =
     (if 2 ^ 1024 - 2 ^ 970 \<le> \<bar>r\<bar> then Inl OverflowError
      else if \<bar>r\<bar> \<le> 1 / 2 ^ 1075 then Inr 0
      else Inr r)"

text \<open>
  \<^verbatim>\<open>v ** 2\<close> on a plain scalar; on a complex scalar the range applies to each
  component of the square.
\<close>

fun sc_sq :: "scalar \<Rightarrow> error + scalar" where
  "sc_sq (Rl a) = (case fl_range (a ^ 2) of Inl e \<Rightarrow> Inl e | Inr r \<Rightarrow> Inr (Rl r))"
| "sc_sq (Cx c) =
     (case fl_range (Re (c ^ 2)) of
        Inl e \<Rightarrow> Inl e
      | Inr r \<Rightarrow>
          (case fl_range (Im (c ^ 2)) of
             Inl e \<Rightarrow> Inl e
           | Inr i \<Rightarrow> Inr (Cx (Complex r i))))"

text \<open>\<^verbatim>\<open>abs(v)\<close> on a plain scalar: the modulus, a float.\<close>

fun sc_abs :: "scalar \<Rightarrow> real" where
  "sc_abs (Rl a) = \<bar>a\<bar>"
| "sc_abs (Cx c) = cmod c"

record DualNumber =
  real_dn :: scalar
  dual :: scalar

text \<open>
  A Python value that the operators meet: a plain scalar or a Dual Number
  (\<^verbatim>\<open>isinstance(other, DualNumber)\<close> is the test on the constructor).
\<close>

datatype pyval = Num scalar | DN DualNumber

definition mk :: "scalar \<Rightarrow> scalar \<Rightarrow> DualNumber" where
  "mk r d = \<lparr>real_dn = r, dual = d\<rparr>"

fun sub :: "DualNumber \<Rightarrow> pyval \<Rightarrow> DualNumber" where
  "sub self (DN other) = mk (sc_sub (real_dn self) (real_dn other)) (sc_sub (dual self) (dual other))"
| "sub self (Num other) = mk (sc_sub (real_dn self) other) (dual self)"

text \<open>\<^verbatim>\<open>__rsub__ = __sub__\<close>\<close>

definition rsub :: "DualNumber \<Rightarrow> pyval \<Rightarrow> DualNumber" where
  "rsub = sub"

fun add :: "DualNumber \<Rightarrow> pyval \<Rightarrow> DualNumber" where
  "add self (DN other) = mk (sc_add (real_dn self) (real_dn other)) (sc_add (dual self) (dual other))"
| "add self (Num other) = mk (sc_add (real_dn self) other) (dual self)"

definition radd :: "DualNumber \<Rightarrow> pyval \<Rightarrow> DualNumber" where
  "radd = add"

fun mul :: "DualNumber \<Rightarrow> pyval \<Rightarrow> DualNumber" where
  "mul self (DN other) =
     mk (sc_mul (real_dn self) (real_dn other))
        (sc_add (sc_mul (dual self) (real_dn other)) (sc_mul (real_dn self) (dual other)))"
| "mul self (Num other) = mk (sc_mul (real_dn self) other) (sc_mul (dual self) other)"

definition rmul :: "DualNumber \<Rightarrow> pyval \<Rightarrow> DualNumber" where
  "rmul = mul"

text \<open>Sequencing of fallible steps: the first raise ends the evaluation.\<close>

fun bind :: "error + 'a \<Rightarrow> ('a \<Rightarrow> error + 'b) \<Rightarrow> error + 'b" where
  "bind (Inl e) k = Inl e"
| "bind (Inr v) k = k v"

text \<open>
  \<^verbatim>\<open>__truediv__\<close>: the guard is the first statement. A Dual Number has no
  \<^verbatim>\<open>__eq__\<close>, so \<^verbatim>\<open>other == 0\<close> is False for a Dual Number divisor and the
  second disjunct decides. After the guard the statements run in the order of the source:
  the quotient of the real components, then the numerator, the square and their quotient.
\<close>

fun truediv :: "DualNumber \<Rightarrow> pyval \<Rightarrow> error + DualNumber" where
  "truediv self (DN other) =
     (if is_zero (real_dn other) then Inl DivisionByZero
      else bind (sc_truediv (real_dn self) (real_dn other)) (\<lambda>r.
           bind (sc_sq (real_dn other)) (\<lambda>sq.
           bind (sc_truediv
                   (sc_sub (sc_mul (dual self) (real_dn other)) (sc_mul (real_dn self) (dual other)))
                   sq) (\<lambda>d.
           Inr (mk r d)))))"
| "truediv self (Num other) =
     (if is_zero other then Inl DivisionByZero
      else bind (sc_truediv (real_dn self) other) (\<lambda>r.
           bind (sc_truediv (dual self) other) (\<lambda>d.
           Inr (mk r d))))"

fun rtruediv :: "DualNumber \<Rightarrow> pyval \<Rightarrow> error + DualNumber" where
  "rtruediv self (DN other) =
     (if is_zero (real_dn self) then Inl DivisionByZero
      else bind (sc_truediv (real_dn other) (real_dn self)) (\<lambda>r.
           bind (sc_sq (real_dn self)) (\<lambda>sq.
           bind (sc_truediv
                   (sc_sub (sc_mul (dual other) (real_dn self)) (sc_mul (real_dn other) (dual self)))
                   sq) (\<lambda>d.
           Inr (mk r d)))))"
| "rtruediv self (Num other) =
     (if is_zero (real_dn self) then Inl DivisionByZero
      else bind (sc_truediv other (real_dn self)) (\<lambda>r.
           bind (sc_sq (real_dn self)) (\<lambda>sq.
           bind (sc_truediv (sc_mul (sc_neg other) (dual self)) sq) (\<lambda>d.
           Inr (mk r d)))))"


text \<open>
  \<^verbatim>\<open>__pow__\<close>: \<^verbatim>\<open>for _ in range(power - 1): result *= self\<close>. The class has no
  \<^verbatim>\<open>__imul__\<close>, so each pass rebinds \<^verbatim>\<open>result\<close> to \<^verbatim>\<open>result.__mul__(self)\<close>.
  \<^verbatim>\<open>range(k)\<close> is empty for \<open>k \<le> 0\<close>, which \<open>nat\<close> gives.
\<close>

fun pow_loop :: "nat \<Rightarrow> DualNumber \<Rightarrow> DualNumber \<Rightarrow> DualNumber" where
  "pow_loop 0 result self = result"
| "pow_loop (Suc k) result self = pow_loop k (mul result (DN self)) self"

definition pow :: "DualNumber \<Rightarrow> int \<Rightarrow> DualNumber" where
  "pow self pwr = pow_loop (nat (pwr - 1)) (mk (real_dn self) (dual self)) self"

section \<open>Python operators on plain scalars and Dual Numbers\<close>

text \<open>
  The binary operators as Python dispatches them: two plain scalars use the scalar
  arithmetic; a Dual Number on the left uses its method; a plain scalar on the left of a
  Dual Number falls to the reflected method of the Dual Number.
\<close>

fun py_add :: "pyval \<Rightarrow> pyval \<Rightarrow> pyval" where
  "py_add (Num x) (Num y) = Num (sc_add x y)"
| "py_add (DN d) v = DN (add d v)"
| "py_add (Num k) (DN d) = DN (radd d (Num k))"

fun py_sub :: "pyval \<Rightarrow> pyval \<Rightarrow> pyval" where
  "py_sub (Num x) (Num y) = Num (sc_sub x y)"
| "py_sub (DN d) v = DN (sub d v)"
| "py_sub (Num k) (DN d) = DN (rsub d (Num k))"

fun py_mul :: "pyval \<Rightarrow> pyval \<Rightarrow> pyval" where
  "py_mul (Num x) (Num y) = Num (sc_mul x y)"
| "py_mul (DN d) v = DN (mul d v)"
| "py_mul (Num k) (DN d) = DN (rmul d (Num k))"

fun py_truediv :: "pyval \<Rightarrow> pyval \<Rightarrow> error + pyval" where
  "py_truediv (Num x) (Num y) = bind (sc_truediv x y) (\<lambda>q. Inr (Num q))"
| "py_truediv (DN d) v = bind (truediv d v) (\<lambda>q. Inr (DN q))"
| "py_truediv (Num k) (DN d) = bind (rtruediv d (Num k)) (\<lambda>q. Inr (DN q))"

text \<open>\<^verbatim>\<open>v ** n\<close> for an integer \<open>n\<close>; on a plain scalar zero a negative power raises.\<close>

fun sc_powi :: "scalar \<Rightarrow> int \<Rightarrow> scalar" where
  "sc_powi (Rl a) n = Rl (a powi n)"
| "sc_powi (Cx c) n = Cx (c powi n)"

fun py_pow :: "pyval \<Rightarrow> int \<Rightarrow> error + pyval" where
  "py_pow (Num x) n =
     (if is_zero x \<and> n < 0 then Inl (ZeroDivisionError ''0.0 cannot be raised to a negative power'')
      else Inr (Num (sc_powi x n)))"
| "py_pow (DN d) n = Inr (DN (pow d n))"

text \<open>
  \<^verbatim>\<open>abs(v)\<close>, \<^verbatim>\<open>v > 0\<close> and \<^verbatim>\<open>v < 0\<close>: a Dual Number defines none of them, and
  a complex number has no order.
\<close>

fun py_abs :: "pyval \<Rightarrow> error + real" where
  "py_abs (Num s) = Inr (sc_abs s)"
| "py_abs (DN d) = Inl TypeError"

fun py_gt0 :: "pyval \<Rightarrow> error + bool" where
  "py_gt0 (Num (Rl r)) = Inr (0 < r)"
| "py_gt0 (Num (Cx c)) = Inl TypeError"
| "py_gt0 (DN d) = Inl TypeError"

fun py_lt0 :: "pyval \<Rightarrow> error + bool" where
  "py_lt0 (Num (Rl r)) = Inr (r < 0)"
| "py_lt0 (Num (Cx c)) = Inl TypeError"
| "py_lt0 (DN d) = Inl TypeError"

section \<open>Logarithm of a Dual Number and the Differentiation Driver\<close>

text \<open>
  numpy's \<^verbatim>\<open>log\<close>: the natural logarithm on a real argument; on a complex argument
  the principal branch, taken as the parameter \<open>clog\<close>. \<open>Dlog\<close> reaches the real case
  only with a positive argument.
\<close>

fun np_log :: "(complex \<Rightarrow> complex) \<Rightarrow> scalar \<Rightarrow> scalar" where
  "np_log clog (Rl r) = Rl (ln r)"
| "np_log clog (Cx c) = Cx (clog c)"

definition Dlog_init :: "(complex \<Rightarrow> complex) \<Rightarrow> DualNumber \<Rightarrow> error + DualNumber" where
  "Dlog_init clog dual_number =
     bind (sc_truediv (dual dual_number) (real_dn dual_number)) (\<lambda>q.
     Inr (mk (np_log clog (real_dn dual_number)) q))"

fun Dlog_guard :: "scalar \<Rightarrow> error + unit" where
  "Dlog_guard (Cx c) = Inr ()"
| "Dlog_guard (Rl r) = (if r \<le> 0 then Inl DomainError else Inr ())"

definition Dlog :: "(complex \<Rightarrow> complex) \<Rightarrow> DualNumber \<Rightarrow> error + DualNumber" where
  "Dlog clog dual_number =
     bind (Dlog_guard (real_dn dual_number)) (\<lambda>_. Dlog_init clog dual_number)"

text \<open>
  \<^verbatim>\<open>diff(f, x_value) = f(DualNumber(x_value, 1)).dual\<close>; a plain scalar has no
  attribute \<^verbatim>\<open>dual\<close>.
\<close>

fun get_dual :: "pyval \<Rightarrow> error + scalar" where
  "get_dual (DN d) = Inr (dual d)"
| "get_dual (Num s) = Inl AttributeError"

definition diff :: "(pyval \<Rightarrow> error + pyval) \<Rightarrow> scalar \<Rightarrow> error + scalar" where
  "diff f x_value = bind (f (DN (mk x_value (Rl 1)))) get_dual"

section \<open>Bisection (src/root.py)\<close>

text \<open>
  One pass of the body of the while loop: the midpoint is returned, or one endpoint is
  replaced by it.
\<close>

datatype step = Found real | Narrow real real

definition halve :: "(real \<Rightarrow> error + pyval) \<Rightarrow> real \<Rightarrow> real \<Rightarrow> real \<Rightarrow> error + step" where
  "halve f a b epsilon =
     (let p = (a + b) / 2 in
      bind (f p) (\<lambda>fp.
      bind (py_abs fp) (\<lambda>m.
      if m \<le> epsilon then Inr (Found p)
      else bind (f a) (\<lambda>fa.
           bind (f p) (\<lambda>fp'.
           bind (py_lt0 (py_mul fa fp')) (\<lambda>neg.
           if neg then Inr (Narrow a p) else Inr (Narrow p b)))))))"

text \<open>
  The while loop has no iteration cap. The first argument is the number of passes the
  run may take; \<open>None\<close> says that the loop is still running after that many.
\<close>

fun bisection_loop ::
  "nat \<Rightarrow> (real \<Rightarrow> error + pyval) \<Rightarrow> real \<Rightarrow> real \<Rightarrow> real \<Rightarrow> (error + real) option" where
  "bisection_loop 0 f a b epsilon =
     (if \<bar>b - a\<bar> > epsilon then None else Some (Inr ((a + b) / 2)))"
| "bisection_loop (Suc n) f a b epsilon =
     (if \<bar>b - a\<bar> > epsilon then
        (case halve f a b epsilon of
           Inl e \<Rightarrow> Some (Inl e)
         | Inr (Found p) \<Rightarrow> Some (Inr p)
         | Inr (Narrow a' b') \<Rightarrow> bisection_loop n f a' b' epsilon)
      else Some (Inr ((a + b) / 2)))"

definition bisection ::
  "nat \<Rightarrow> (real \<Rightarrow> error + pyval) \<Rightarrow> real \<Rightarrow> real \<Rightarrow> real \<Rightarrow> (error + real) option" where
  "bisection n f a b epsilon =
     (case bind (f a) (\<lambda>fa. bind (f b) (\<lambda>fb. py_gt0 (py_mul fa fb))) of
        Inl e \<Rightarrow> Some (Inl e)
      | Inr True \<Rightarrow> Some (Inl BracketError)
      | Inr False \<Rightarrow> bisection_loop n f a b epsilon)"

text \<open>The bracket at the start of pass \<open>k\<close> of the loop, when the run gets there.\<close>

fun bracket_at ::
  "nat \<Rightarrow> (real \<Rightarrow> error + pyval) \<Rightarrow> real \<Rightarrow> real \<Rightarrow> real \<Rightarrow> (real \<times> real) option" where
  "bracket_at 0 f a b epsilon = Some (a, b)"
| "bracket_at (Suc k) f a b epsilon =
     (if \<bar>b - a\<bar> > epsilon then
        (case halve f a b epsilon of
           Inr (Narrow a' b') \<Rightarrow> bracket_at k f a' b' epsilon
         | _ \<Rightarrow> None)
      else None)"

text \<open>A function of floats that returns a float on every argument.\<close>

definition lift_real :: "(real \<Rightarrow> real) \<Rightarrow> real \<Rightarrow> error + pyval" where
  "lift_real g x = Inr (Num (Rl (g x)))"

section \<open>Newton (src/root.py)\<close>

text \<open>
  The for loop over \<^verbatim>\<open>range(max_iter)\<close>. Each pass evaluates \<^verbatim>\<open>f(x)\<close>, then
  \<^verbatim>\<open>diff(f, x)\<close>, and only then tests \<^verbatim>\<open>abs(fx) <= epsilon\<close>, which raises
  TypeError on a Dual Number.
\<close>

fun newton_loop ::
  "nat \<Rightarrow> (pyval \<Rightarrow> error + pyval) \<Rightarrow> real \<Rightarrow> scalar \<Rightarrow> error + scalar" where
  "newton_loop 0 f epsilon x = Inl ConvergenceError"
| "newton_loop (Suc k) f epsilon x =
     bind (f (Num x)) (\<lambda>fx.
     bind (diff f x) (\<lambda>dfx.
     case fx of
       DN d \<Rightarrow> Inl TypeError
     | Num v \<Rightarrow>
         if sc_abs v \<le> epsilon then Inr x
         else if is_zero dfx then newton_loop k f epsilon (sc_add x (Rl epsilon))
         else bind (sc_truediv v dfx) (\<lambda>q. newton_loop k f epsilon (sc_sub x q))))"

text \<open>
  \<^verbatim>\<open>newton(f, epsilon, x0=None, max_iter=100)\<close>. The first argument bounds the passes
  of the bisection that supplies a missing \<open>x0\<close>.
\<close>

definition newton ::
  "nat \<Rightarrow> (pyval \<Rightarrow> error + pyval) \<Rightarrow> real \<Rightarrow> scalar option \<Rightarrow> int \<Rightarrow> (error + scalar) option" where
  "newton n f epsilon x0 max_iter =
     (case x0 of
        Some x \<Rightarrow> Some (newton_loop (nat max_iter) f epsilon x)
      | None \<Rightarrow>
          (case bisection n (\<lambda>x. f (Num (Rl x))) (- (10 ^ 10)) (10 ^ 10) (1 / 100) of
             None \<Rightarrow> None
           | Some (Inl e) \<Rightarrow> Some (Inl e)
           | Some (Inr r) \<Rightarrow> Some (newton_loop (nat max_iter) f epsilon (Rl r))))"

section \<open>Functions used as concrete inputs\<close>

text \<open>The principal branch of the complex logarithm, an instance of \<open>clog\<close>.\<close>

definition principal_log :: "complex \<Rightarrow> complex" where
  "principal_log z = Complex (ln (cmod z)) (Arg z)"

text \<open>\<^verbatim>\<open>lambda x: x\<close>\<close>

definition f_ident :: "real \<Rightarrow> real" where
  "f_ident x = x"

text \<open>\<^verbatim>\<open>lambda x: 10 * x - 1\<close>\<close>

definition f_line :: "real \<Rightarrow> real" where
  "f_line x = 10 * x - 1"

text \<open>\<^verbatim>\<open>lambda x: 1 - x\<close>\<close>

definition f_one_minus :: "pyval \<Rightarrow> error + pyval" where
  "f_one_minus x = Inr (py_sub (Num (Rl 1)) x)"

text \<open>\<^verbatim>\<open>lambda x: x / ((1 - x) + 1)\<close>\<close>

definition f_quot :: "pyval \<Rightarrow> error + pyval" where
  "f_quot x = py_truediv x (py_add (py_sub (Num (Rl 1)) x) (Num (Rl 1)))"

text \<open>\<^verbatim>\<open>lambda x: x * x + 1\<close>\<close>

definition f_sq1 :: "pyval \<Rightarrow> error + pyval" where
  "f_sq1 x = Inr (py_add (py_mul x x) (Num (Rl 1)))"

text \<open>\<^verbatim>\<open>lambda x: x * x - 1\<close>\<close>

definition f_sqm1 :: "pyval \<Rightarrow> error + pyval" where
  "f_sqm1 x = Inr (py_sub (py_mul x x) (Num (Rl 1)))"

text \<open>\<^verbatim>\<open>lambda x: x ** n\<close>\<close>

definition f_pow :: "int \<Rightarrow> pyval \<Rightarrow> error + pyval" where
  "f_pow n x = py_pow x n"

section \<open>Dual Number arithmetic: properties\<close>

lemma mk_eta: "mk (real_dn d) (dual d) = d"
  by (simp add: mk_def)

lemma pow_loop_funpow: "pow_loop k r d = ((\<lambda>r. mul r (DN d)) ^^ k) r"
proof (induction k arbitrary: r)
  case 0
  show ?case by simp
next
  case (Suc k)
  have "pow_loop (Suc k) r d = ((\<lambda>r. mul r (DN d)) ^^ k) (mul r (DN d))"
    by (simp only: pow_loop.simps Suc.IH)
  also have "\<dots> = ((\<lambda>r. mul r (DN d)) ^^ Suc k) r"
    by (simp only: funpow_Suc_right o_apply)
  finally show ?case .
qed

lemma mul_real_step:
  "mul (mk (Rl (a ^ Suc m)) (Rl (of_nat (Suc m) * a ^ m))) (DN (mk (Rl a) (Rl 1)))
     = mk (Rl (a ^ Suc (Suc m))) (Rl (of_nat (Suc (Suc m)) * a ^ Suc m))"
  by (simp add: mk_def algebra_simps)

lemma pow_loop_real:
  "pow_loop k (mk (Rl (a ^ Suc m)) (Rl (of_nat (Suc m) * a ^ m))) (mk (Rl a) (Rl 1))
     = mk (Rl (a ^ (Suc m + k))) (Rl (of_nat (Suc m + k) * a ^ (m + k)))"
proof (induction k arbitrary: m)
  case 0
  show ?case by simp
next
  case (Suc k)
  have "pow_loop (Suc k) (mk (Rl (a ^ Suc m)) (Rl (of_nat (Suc m) * a ^ m))) (mk (Rl a) (Rl 1))
      = pow_loop k (mk (Rl (a ^ Suc (Suc m))) (Rl (of_nat (Suc (Suc m)) * a ^ Suc m)))
          (mk (Rl a) (Rl 1))"
    by (simp only: pow_loop.simps mul_real_step)
  also have "\<dots> = mk (Rl (a ^ (Suc (Suc m) + k))) (Rl (of_nat (Suc (Suc m) + k) * a ^ (Suc m + k)))"
    by (rule Suc.IH)
  finally show ?case by simp
qed

text \<open>The seed \<open>(a, 1)\<close> raised to \<open>n \<ge> 1\<close> is \<open>(a\<^sup>n, n a\<^sup>n\<^sup>-\<^sup>1)\<close>.\<close>

lemma pow_seed:
  assumes "1 \<le> n"
  shows "pow (mk (Rl a) (Rl 1)) n = mk (Rl (a ^ nat n)) (Rl (of_int n * a ^ nat (n - 1)))"
proof -
  obtain k where k: "nat (n - 1) = k" by simp
  have n: "n = int (Suc k)" using assms k by linarith
  have nn: "nat n = Suc k" using n by simp
  have "pow (mk (Rl a) (Rl 1)) n
      = pow_loop k (mk (Rl (a ^ Suc 0)) (Rl (of_nat (Suc 0) * a ^ 0))) (mk (Rl a) (Rl 1))"
    by (simp add: pow_def k mk_def)
  also have "\<dots> = mk (Rl (a ^ (Suc 0 + k))) (Rl (of_nat (Suc 0 + k) * a ^ (0 + k)))"
    by (rule pow_loop_real)
  finally show ?thesis by (simp add: nn k) (simp add: n)
qed

text \<open>
  Claim C1. For every integer \<open>n \<ge> 1\<close> and every real \<open>a\<close> (zero included), the
  Differentiation Driver applied to \<^verbatim>\<open>x -> x**n\<close> at \<open>a\<close> returns \<open>n * a^(n-1)\<close>, and
  the power of a Dual Number is the Dual Number multiplied by itself \<open>n - 1\<close> times in
  succession.
\<close>

theorem diff_pow:
  assumes "1 \<le> n"
  shows "diff (f_pow n) (Rl a) = Inr (Rl (of_int n * a ^ nat (n - 1)))
       \<and> pow d n = ((\<lambda>r. mul r (DN d)) ^^ nat (n - 1)) d"
proof
  show "diff (f_pow n) (Rl a) = Inr (Rl (of_int n * a ^ nat (n - 1)))"
    by (simp add: diff_def f_pow_def pow_seed[OF assms]) (simp add: mk_def)
  show "pow d n = ((\<lambda>r. mul r (DN d)) ^^ nat (n - 1)) d"
    by (simp add: pow_def mk_eta pow_loop_funpow)
qed

theorem diff_pow_witness:
  "(1::int) \<le> 3 \<and> diff (f_pow 3) (Rl 2) = Inr (Rl 12)"
  using diff_pow[of 3 2] by simp

text \<open>What the reflected subtraction computes for a plain scalar on the left.\<close>

lemma rsub_scalar: "py_sub (Num k) (DN d) = DN (mk (sc_sub (real_dn d) k) (dual d))"
  by (simp add: rsub_def)

text \<open>
  Claim C2 says that \<open>k - (a, b)\<close> is \<open>(k - a, -b)\<close>. The reflected subtraction is the
  same function as the subtraction, so \<open>5 - (2, 3)\<close> evaluates to \<open>(2 - 5, 3) = (-3, 3)\<close>,
  not to \<open>(3, -3)\<close>, and the Differentiation Driver returns \<open>1\<close> for \<^verbatim>\<open>x -> 1 - x\<close>,
  whose derivative is \<open>-1\<close>.
\<close>

theorem rsub_swapped:
  "py_sub (Num (Rl 5)) (DN (mk (Rl 2) (Rl 3))) = DN (mk (Rl (- 3)) (Rl 3))
   \<and> mk (Rl (- 3)) (Rl 3) \<noteq> mk (sc_sub (Rl 5) (Rl 2)) (sc_neg (Rl 3))
   \<and> diff f_one_minus (Rl 0) = Inr (Rl 1)"
  by (simp add: rsub_def mk_def diff_def f_one_minus_def)

text \<open>
  Claim C10. For every Dual Number and every integer exponent \<open>n \<le> 1\<close> (one, zero and
  the negative ones) the power is a Dual Number equal to the input: the loop body never
  runs, and nothing is rejected.
\<close>

theorem pow_le_one: "n \<le> 1 \<Longrightarrow> pow d n = d \<and> py_pow (DN d) n = Inr (DN d)"
  by (simp add: pow_def mk_def)

theorem pow_le_one_witness:
  "(- 2::int) \<le> 1 \<and> pow (mk (Rl 3) (Rl 1)) (- 2) = mk (Rl 3) (Rl 1)
     \<and> py_pow (DN (mk (Rl 3) (Rl 1))) (- 2) = Inr (DN (mk (Rl 3) (Rl 1)))"
  using pow_le_one[of "- 2" "mk (Rl 3) (Rl 1)"] by simp

lemma sc_truediv_ok: "\<not> is_zero y \<Longrightarrow> \<exists>q. sc_truediv x y = Inr q"
  by (cases x; cases y) auto

lemma sc_truediv_zero:
  "is_zero y \<Longrightarrow> \<exists>m. sc_truediv x y = Inl (ZeroDivisionError m) \<and> m \<noteq> ''Division by Zero''"
  by (cases x; cases y) auto

















section \<open>Logarithm: properties\<close>

lemma Dlog_domain:
  "(Dlog clog d = Inl DomainError) = (case real_dn d of Rl a \<Rightarrow> a \<le> 0 | Cx c \<Rightarrow> False)"
proof (cases "real_dn d")
  case (Rl a)
  show ?thesis
  proof (cases "a \<le> 0")
    case True
    then show ?thesis using Rl by (simp add: Dlog_def)
  next
    case False
    then have "\<not> is_zero (real_dn d)" using Rl by simp
    from sc_truediv_ok[OF this] obtain q where "sc_truediv (dual d) (real_dn d) = Inr q" by blast
    then show ?thesis using Rl False by (simp add: Dlog_def Dlog_init_def)
  qed
next
  case (Cx c)
  show ?thesis
  proof (cases "c = 0")
    case True
    then have "is_zero (real_dn d)" using Cx by simp
    from sc_truediv_zero[OF this] obtain m
      where "sc_truediv (dual d) (real_dn d) = Inl (ZeroDivisionError m)" by blast
    then show ?thesis using Cx by (simp add: Dlog_def Dlog_init_def)
  next
    case False
    then have "\<not> is_zero (real_dn d)" using Cx by simp
    from sc_truediv_ok[OF this] obtain q where "sc_truediv (dual d) (real_dn d) = Inr q" by blast
    then show ?thesis using Cx by (simp add: Dlog_def Dlog_init_def)
  qed
qed

lemma Dlog_real: "0 < a \<Longrightarrow> Dlog clog (mk (Rl a) (Rl b)) = Inr (mk (Rl (ln a)) (Rl (b / a)))"
  by (simp add: Dlog_def Dlog_init_def mk_def)

lemma Dlog_real_cx:
  "0 < a \<Longrightarrow> Dlog clog (mk (Rl a) (Cx c)) = Inr (mk (Rl (ln a)) (Cx (c / of_real a)))"
  by (simp add: Dlog_def Dlog_init_def mk_def)

lemma Dlog_complex: "Dlog clog (mk (Cx c) b) = Dlog_init clog (mk (Cx c) b)"
  by (simp add: Dlog_def mk_def)

lemma Dlog_complex_nz:
  "c \<noteq> 0 \<Longrightarrow> Dlog clog (mk (Cx c) b) = Inr (mk (Cx (clog c)) (Cx (to_cx b / c)))"
  by (cases b) (simp_all add: Dlog_def Dlog_init_def mk_def)

text \<open>
  Claim C4. \<open>Dlog\<close> raises the DomainError exactly when the real component is a real
  number \<open>a \<le> 0\<close>; for a real \<open>a > 0\<close> it returns \<open>(ln a, b / a)\<close>; a complex real
  component skips the check altogether, zero included, and goes straight to the
  construction of the result.
\<close>

theorem Dlog_cases:
  "(Dlog clog d = Inl DomainError) = (case real_dn d of Rl a \<Rightarrow> a \<le> 0 | Cx c \<Rightarrow> False)
   \<and> (0 < a \<longrightarrow> Dlog clog (mk (Rl a) (Rl b)) = Inr (mk (Rl (ln a)) (Rl (b / a))))
   \<and> (0 < a \<longrightarrow> Dlog clog (mk (Rl a) (Cx z)) = Inr (mk (Rl (ln a)) (Cx (z / of_real a))))
   \<and> Dlog clog (mk (Cx c) s) = Dlog_init clog (mk (Cx c) s)
   \<and> (c \<noteq> 0 \<longrightarrow> Dlog clog (mk (Cx c) s) = Inr (mk (Cx (clog c)) (Cx (to_cx s / c))))"
  using Dlog_domain Dlog_real Dlog_real_cx Dlog_complex Dlog_complex_nz by blast

theorem Dlog_cases_witness:
  "Dlog principal_log (mk (Rl (- 1)) (Rl 1)) = Inl DomainError
   \<and> Dlog principal_log (mk (Cx (- 1)) (Rl 1)) \<noteq> Inl DomainError
   \<and> (0::real) < 1 \<and> Dlog principal_log (mk (Rl 1) (Rl 3)) = Inr (mk (Rl 0) (Rl 3))
   \<and> \<i> \<noteq> 0
   \<and> Dlog principal_log (mk (Cx \<i>) (Rl 1)) = Inr (mk (Cx (principal_log \<i>)) (Cx (1 / \<i>)))"
  using Dlog_cases[of principal_log "mk (Rl (- 1)) (Rl 1)" 1 3 0 \<i> "Rl 1"]
        Dlog_cases[of principal_log "mk (Cx (- 1)) (Rl 1)" 1 3 0 \<i> "Rl 1"]
  by (simp add: mk_def)

section \<open>Bisection: properties\<close>

lemma halve_lift:
  "halve (lift_real g) a b eps =
     Inr (if \<bar>g ((a + b) / 2)\<bar> \<le> eps then Found ((a + b) / 2)
          else if g a * g ((a + b) / 2) < 0 then Narrow a ((a + b) / 2)
          else Narrow ((a + b) / 2) b)"
  by (simp add: halve_def lift_real_def Let_def)

lemma halve_targets:
  assumes "halve (lift_real g) a b eps = Inr (Narrow a' b')"
  shows "(g a * g ((a + b) / 2) < 0 \<and> a' = a \<and> b' = (a + b) / 2)
       \<or> (\<not> g a * g ((a + b) / 2) < 0 \<and> a' = (a + b) / 2 \<and> b' = b)"
  using assms unfolding halve_lift by (simp split: if_splits)

lemma halve_width:
  assumes "halve (lift_real g) a b eps = Inr (Narrow a' b')"
  shows "\<bar>b' - a'\<bar> = \<bar>b - a\<bar> / 2"
proof -
  have "b' - a' = (b - a) / 2"
    using halve_targets[OF assms] by (auto simp: field_simps)
  then have "\<bar>b' - a'\<bar> = \<bar>(b - a) / 2\<bar>" by (rule arg_cong)
  then show ?thesis by simp
qed

text \<open>
  A pass keeps \<open>f(a) * f(b) \<le> 0\<close> whenever \<open>f(a)\<close> is not zero.
\<close>

lemma halve_keeps_bracket:
  assumes nz: "g a \<noteq> 0" and inv: "g a * g b \<le> 0"
    and st: "halve (lift_real g) a b eps = Inr (Narrow a' b')"
  shows "g a' * g b' \<le> 0"
  using halve_targets[OF st]
proof (elim disjE conjE)
  assume "g a * g ((a + b) / 2) < 0" and "a' = a" and "b' = (a + b) / 2"
  then show ?thesis by (simp only: less_imp_le)
next
  assume np: "\<not> g a * g ((a + b) / 2) < 0" and a': "a' = (a + b) / 2" and b': "b' = b"
  have "g ((a + b) / 2) * g b \<le> 0"
    using nz inv np by (auto simp: mult_le_0_iff mult_less_0_iff not_less)
  then show ?thesis by (simp only: a' b')
qed

lemma loop_no_error: "bisection_loop n (lift_real g) a b eps \<noteq> Some (Inl e)"
proof (induction n arbitrary: a b)
  case 0
  show ?case by simp
next
  case (Suc n)
  show ?case using Suc.IH by (simp add: halve_lift)
qed

text \<open>
  Claim C6. \<open>bisection\<close> raises the BracketError exactly when \<open>f(a) * f(b) > 0\<close>, and
  before any pass of the loop: the answer is the same whatever number of passes is allowed,
  zero included, and whatever \<open>f\<close> does away from the two endpoints. The equivalence is
  for an \<open>f\<close> that returns a float on every argument.
\<close>

theorem bracket_error:
  "(f a = Inr (Num (Rl ya)) \<and> f b = Inr (Num (Rl yb)) \<and> 0 < ya * yb
      \<longrightarrow> bisection n f a b eps = Some (Inl BracketError))
   \<and> (bisection n (lift_real g) a b eps = Some (Inl BracketError)) = (0 < g a * g b)"
proof
  show "f a = Inr (Num (Rl ya)) \<and> f b = Inr (Num (Rl yb)) \<and> 0 < ya * yb
      \<longrightarrow> bisection n f a b eps = Some (Inl BracketError)"
    by (simp add: bisection_def)
  show "(bisection n (lift_real g) a b eps = Some (Inl BracketError)) = (0 < g a * g b)"
  proof (cases "0 < g a * g b")
    case True
    then show ?thesis by (simp add: bisection_def lift_real_def)
  next
    case False
    then have "bisection n (lift_real g) a b eps = bisection_loop n (lift_real g) a b eps"
      by (simp add: bisection_def lift_real_def)
    then show ?thesis using False loop_no_error by simp
  qed
qed

theorem bracket_error_witness:
  "lift_real f_line 1 = Inr (Num (Rl 9)) \<and> lift_real f_line 2 = Inr (Num (Rl 19))
    \<and> (0::real) < 9 * 19
    \<and> bisection 0 (lift_real f_line) 1 2 (1 / 100) = Some (Inl BracketError)
    \<and> bisection 5 (lift_real f_line) 0 3 1 \<noteq> Some (Inl BracketError)"
  using bracket_error[of "lift_real f_line" 1 9 2 19 0 "1 / 100" f_line]
        bracket_error[of "lift_real f_line" 0 "- 1" 3 29 5 1 f_line]
  by (simp add: lift_real_def f_line_def)

text \<open>
  Claim C5 says that every pass keeps \<open>f(a) * f(b) \<le> 0\<close>. With \<^verbatim>\<open>f = lambda x: x\<close>
  on the bracket \<open>[0, 2]\<close> and \<open>epsilon = 1/2\<close> the invariant holds at entry
  (\<open>f(0) * f(2) = 0\<close>); \<open>f(0) * f(1) = 0\<close> is not negative, so the pass sets \<open>a = 1\<close>, and
  \<open>f(1) * f(2) = 2\<close> is positive. The run then returns \<open>7/4\<close>, away from the root \<open>0\<close>.
\<close>

theorem halving_loses_bracket:
  "f_ident 0 * f_ident 2 \<le> 0
   \<and> halve (lift_real f_ident) 0 2 (1 / 2) = Inr (Narrow 1 2)
   \<and> \<not> f_ident 1 * f_ident 2 \<le> 0
   \<and> bisection 2 (lift_real f_ident) 0 2 (1 / 2) = Some (Inr (7 / 4))"
  by (simp add: bisection_def lift_real_def f_ident_def halve_def numeral_2_eq_2)

lemma loop_returns:
  assumes eps: "0 < eps"
  shows "\<bar>b - a\<bar> \<le> eps * 2 ^ n \<Longrightarrow>
    \<exists>r k a' b'. bisection_loop n (lift_real g) a b eps = Some (Inr r)
       \<and> k \<le> n \<and> bracket_at k (lift_real g) a b eps = Some (a', b')
       \<and> \<bar>b' - a'\<bar> = \<bar>b - a\<bar> / 2 ^ k
       \<and> r = (a' + b') / 2 \<and> (\<bar>g r\<bar> \<le> eps \<or> \<bar>b' - a'\<bar> \<le> eps)"
proof (induction n arbitrary: a b)
  case 0
  then have "\<not> \<bar>b - a\<bar> > eps" by simp
  then have "bisection_loop 0 (lift_real g) a b eps = Some (Inr ((a + b) / 2))
       \<and> (0::nat) \<le> 0 \<and> bracket_at 0 (lift_real g) a b eps = Some (a, b)
       \<and> \<bar>b - a\<bar> = \<bar>b - a\<bar> / 2 ^ (0::nat)
       \<and> (a + b) / 2 = (a + b) / 2 \<and> (\<bar>g ((a + b) / 2)\<bar> \<le> eps \<or> \<bar>b - a\<bar> \<le> eps)"
    by simp
  then show ?case by blast
next
  case (Suc n)
  let ?p = "(a + b) / 2"
  consider (stop) "\<not> \<bar>b - a\<bar> > eps"
    | (found) "\<bar>b - a\<bar> > eps" "\<bar>g ?p\<bar> \<le> eps"
    | (narrow) "\<bar>b - a\<bar> > eps" "\<not> \<bar>g ?p\<bar> \<le> eps"
    by blast
  then show ?case
  proof cases
    case stop
    then have "bisection_loop (Suc n) (lift_real g) a b eps = Some (Inr ?p)
       \<and> (0::nat) \<le> Suc n \<and> bracket_at 0 (lift_real g) a b eps = Some (a, b)
       \<and> \<bar>b - a\<bar> = \<bar>b - a\<bar> / 2 ^ (0::nat)
       \<and> ?p = (a + b) / 2 \<and> (\<bar>g ?p\<bar> \<le> eps \<or> \<bar>b - a\<bar> \<le> eps)"
      by simp
    then show ?thesis by blast
  next
    case found
    then have "bisection_loop (Suc n) (lift_real g) a b eps = Some (Inr ?p)
       \<and> (0::nat) \<le> Suc n \<and> bracket_at 0 (lift_real g) a b eps = Some (a, b)
       \<and> \<bar>b - a\<bar> = \<bar>b - a\<bar> / 2 ^ (0::nat)
       \<and> ?p = (a + b) / 2 \<and> (\<bar>g ?p\<bar> \<le> eps \<or> \<bar>b - a\<bar> \<le> eps)"
      by (simp add: halve_lift)
    then show ?thesis by blast
  next
    case narrow
    have "halve (lift_real g) a b eps = Inr (Narrow a ?p)
        \<or> halve (lift_real g) a b eps = Inr (Narrow ?p b)"
      using narrow(2) by (simp add: halve_lift)
    then obtain a1 b1 where st: "halve (lift_real g) a b eps = Inr (Narrow a1 b1)"
      by blast
    have w: "\<bar>b1 - a1\<bar> = \<bar>b - a\<bar> / 2" by (rule halve_width[OF st])
    have "\<bar>b1 - a1\<bar> \<le> eps * 2 ^ n" using Suc.prems w by simp
    from Suc.IH[OF this] obtain r k a' b' where
      r: "bisection_loop n (lift_real g) a1 b1 eps = Some (Inr r)"
      and k: "k \<le> n" and br: "bracket_at k (lift_real g) a1 b1 eps = Some (a', b')"
      and wk: "\<bar>b' - a'\<bar> = \<bar>b1 - a1\<bar> / 2 ^ k"
      and mid: "r = (a' + b') / 2" and fin: "\<bar>g r\<bar> \<le> eps \<or> \<bar>b' - a'\<bar> \<le> eps"
      by blast
    have 1: "bisection_loop (Suc n) (lift_real g) a b eps = Some (Inr r)"
      using narrow(1) st r by simp
    have 2: "bracket_at (Suc k) (lift_real g) a b eps = Some (a', b')"
      using narrow(1) st br by simp
    have 3: "\<bar>b' - a'\<bar> = \<bar>b - a\<bar> / 2 ^ Suc k"
      using wk w by simp
    have 4: "Suc k \<le> Suc n" using k by simp
    show ?thesis using 1 2 3 4 mid fin by blast
  qed
qed

lemma log_bound:
  assumes eps: "0 < eps"
  shows "\<bar>b - a\<bar> \<le> eps * 2 ^ nat \<lceil>log 2 (\<bar>b - a\<bar> / eps)\<rceil>"
proof (cases "\<bar>b - a\<bar> \<le> eps")
  case True
  have "eps * 1 \<le> eps * 2 ^ nat \<lceil>log 2 (\<bar>b - a\<bar> / eps)\<rceil>"
    using eps by (intro mult_left_mono) simp_all
  then show ?thesis using True by simp
next
  case False
  define w where "w = \<bar>b - a\<bar> / eps"
  have w1: "1 < w" using False eps by (simp add: w_def)
  then have lp: "0 < log 2 w" by simp
  then have cp: "0 \<le> \<lceil>log 2 w\<rceil>" by linarith
  have "w = 2 powr (log 2 w)" using w1 by simp
  also have "\<dots> \<le> 2 powr (of_int \<lceil>log 2 w\<rceil>)"
    by (intro powr_mono) simp_all
  also have "of_int \<lceil>log 2 w\<rceil> = real (nat \<lceil>log 2 w\<rceil>)" using cp by simp
  also have "2 powr (real (nat \<lceil>log 2 w\<rceil>)) = 2 ^ nat \<lceil>log 2 w\<rceil>"
    by (simp add: powr_realpow)
  finally have "w \<le> 2 ^ nat \<lceil>log 2 w\<rceil>" .
  then have "\<bar>b - a\<bar> / eps \<le> 2 ^ nat \<lceil>log 2 (\<bar>b - a\<bar> / eps)\<rceil>" by (simp add: w_def)
  then show ?thesis using eps by (simp add: field_simps)
qed

text \<open>
  Claim C7 bounds the number of passes by \<open>log2((b - a) / epsilon)\<close>. On \<open>[0, 3]\<close> with
  \<open>epsilon = 1\<close> and \<^verbatim>\<open>f = lambda x: 10 * x - 1\<close> that bound is below 2, yet the run
  completes two passes: it is still running after one and returns after the second.
\<close>

theorem bisection_bound_exceeded:
  "(0::real) < 1 \<and> f_line 0 * f_line 3 \<le> 0
   \<and> log 2 ((3 - 0) / 1) < 2
   \<and> bracket_at 2 (lift_real f_line) 0 3 1 = Some (0, 3 / 4)
   \<and> bisection 1 (lift_real f_line) 0 3 1 = None
   \<and> bisection 2 (lift_real f_line) 0 3 1 = Some (Inr (3 / 8))"
proof -
  have l: "log 2 ((3 - 0) / 1) < 2" by (simp add: log_less_iff)
  have rest: "(0::real) < 1 \<and> f_line 0 * f_line 3 \<le> 0
   \<and> bracket_at 2 (lift_real f_line) 0 3 1 = Some (0, 3 / 4)
   \<and> bisection 1 (lift_real f_line) 0 3 1 = None
   \<and> bisection 2 (lift_real f_line) 0 3 1 = Some (Inr (3 / 8))"
    by (simp add: bisection_def lift_real_def f_line_def halve_def numeral_2_eq_2)
  show ?thesis using l rest by blast
qed

text \<open>
  Claim C7, amended. For every positive \<open>epsilon\<close>, every \<open>f\<close> that returns a float on
  every argument and every bracket with \<open>f(a) * f(b) \<le> 0\<close>, the loop returns within
  \<open>\<lceil>log2(|b - a| / epsilon)\<rceil>\<close> passes (none when \<open>|b - a| \<le> epsilon\<close>). Each pass
  halves the width of the bracket, and the value returned is the midpoint of the bracket
  \<open>[a', b']\<close> reached after \<open>k\<close> passes, with \<open>|f(p)| \<le> epsilon\<close> there or with
  \<open>|b' - a'| \<le> epsilon\<close>.
\<close>

theorem bisection_terminates:
  assumes "0 < eps" and "g a * g b \<le> 0"
  shows "\<exists>r k a' b'.
       bisection (nat \<lceil>log 2 (\<bar>b - a\<bar> / eps)\<rceil>) (lift_real g) a b eps = Some (Inr r)
       \<and> k \<le> nat \<lceil>log 2 (\<bar>b - a\<bar> / eps)\<rceil>
       \<and> bracket_at k (lift_real g) a b eps = Some (a', b')
       \<and> \<bar>b' - a'\<bar> = \<bar>b - a\<bar> / 2 ^ k
       \<and> r = (a' + b') / 2 \<and> (\<bar>g r\<bar> \<le> eps \<or> \<bar>b' - a'\<bar> \<le> eps)"
proof -
  have "bisection (nat \<lceil>log 2 (\<bar>b - a\<bar> / eps)\<rceil>) (lift_real g) a b eps
      = bisection_loop (nat \<lceil>log 2 (\<bar>b - a\<bar> / eps)\<rceil>) (lift_real g) a b eps"
    using assms(2) by (simp add: bisection_def lift_real_def)
  then show ?thesis
    using loop_returns[OF assms(1) log_bound[OF assms(1)], of b a g] by simp
qed

theorem bisection_terminates_witness:
  "(0::real) < 1 \<and> f_line 0 * f_line 4 \<le> 0
   \<and> (\<exists>r k a' b'.
       bisection (nat \<lceil>log 2 (\<bar>4 - 0\<bar> / 1)\<rceil>) (lift_real f_line) 0 4 1 = Some (Inr r)
       \<and> k \<le> nat \<lceil>log 2 (\<bar>4 - 0\<bar> / 1)\<rceil>
       \<and> bracket_at k (lift_real f_line) 0 4 1 = Some (a', b')
       \<and> \<bar>b' - a'\<bar> = \<bar>4 - 0\<bar> / 2 ^ k
       \<and> r = (a' + b') / 2 \<and> (\<bar>f_line r\<bar> \<le> 1 \<or> \<bar>b' - a'\<bar> \<le> 1))"
proof -
  have h1: "(0::real) < 1" by simp
  have h2: "f_line 0 * f_line 4 \<le> 0" by (simp add: f_line_def)
  show ?thesis
    using h1 h2 bisection_terminates[where eps = 1 and g = f_line and a = 0 and b = 4, OF h1 h2]
    by blast
qed

section \<open>Newton: properties\<close>

lemma newton_supplied:
  "newton n f eps (Some x0) max_iter = Some (newton_loop (nat max_iter) f eps x0)"
  by (simp add: newton_def)

lemma newton_loop_root:
  assumes "f (Num x) = Inr (Num v)" and "sc_abs v \<le> eps"
  shows "newton_loop (Suc k) f eps x = bind (diff f x) (\<lambda>dfx. Inr x)"
  using assms by simp

text \<open>
  Claim C8 says that \<open>x0\<close> is returned when \<open>|f(x0)| \<le> epsilon\<close> whether or not the
  derivative can be evaluated there. With \<^verbatim>\<open>f = lambda x: x / ((1 - x) + 1)\<close> and
  \<open>x0 = 0\<close>: \<open>f(0) = 0\<close> on the float, while on the seed \<open>(0, 1)\<close> the divisor is
  \<open>((0 - 1) + 1, 1) = (0, 1)\<close> and the guard of the division raises; \<open>newton\<close> raises
  that ZeroDivisionError.
\<close>

theorem newton_derivative_first:
  "f_quot (Num (Rl 0)) = Inr (Num (Rl 0)) \<and> sc_abs (Rl 0) \<le> 1 / 10 ^ 10
   \<and> diff f_quot (Rl 0) = Inl DivisionByZero
   \<and> newton 0 f_quot (1 / 10 ^ 10) (Some (Rl 0)) 100 = Some (Inl DivisionByZero)"
proof -
  have h1: "f_quot (Num (Rl 0)) = Inr (Num (Rl 0))" by (simp add: f_quot_def)
  have h3: "diff f_quot (Rl 0) = Inl DivisionByZero"
    by (simp add: f_quot_def diff_def mk_def rsub_def radd_def)
  have n: "nat 100 = Suc 99" by simp
  have "newton 0 f_quot (1 / 10 ^ 10) (Some (Rl 0)) 100 = Some (Inl DivisionByZero)"
    by (simp only: newton_supplied n newton_loop.simps h1 h3 bind.simps)
  then show ?thesis using h1 h3 by simp
qed

text \<open>
  Claim C8, amended. In every pass both \<open>fx = f(x)\<close> and \<open>dfx = diff(f, x)\<close> are
  evaluated before the test \<open>|fx| \<le> epsilon\<close>. When \<open>|f(x)| \<le> epsilon\<close> the pass returns
  \<open>x\<close> if the derivative evaluation at \<open>x\<close> succeeds and raises the error of the
  derivative evaluation otherwise; so does \<open>newton\<close> with a supplied \<open>x0\<close> and
  \<open>max_iter \<ge> 1\<close>.
\<close>

theorem newton_root_after_derivative:
  assumes "f (Num x) = Inr (Num v)" and "sc_abs v \<le> eps"
  shows "(diff f x = Inr dfx \<longrightarrow> newton_loop (Suc k) f eps x = Inr x)
       \<and> (diff f x = Inl e \<longrightarrow> newton_loop (Suc k) f eps x = Inl e)
       \<and> (1 \<le> max_iter \<longrightarrow>
            newton n f eps (Some x) max_iter = Some (bind (diff f x) (\<lambda>dfx. Inr x)))"
proof (intro conjI impI)
  note root = newton_loop_root[where f = f and x = x, OF assms]
  {
    assume d: "diff f x = Inr dfx"
    show "newton_loop (Suc k) f eps x = Inr x"
      by (simp only: root d bind.simps)
  next
    assume d: "diff f x = Inl e"
    show "newton_loop (Suc k) f eps x = Inl e"
      by (simp only: root d bind.simps)
  next
    assume "1 \<le> max_iter"
    then obtain j where j: "nat max_iter = Suc j" by (cases "nat max_iter") simp_all
    show "newton n f eps (Some x) max_iter = Some (bind (diff f x) (\<lambda>dfx. Inr x))"
      by (simp only: newton_supplied j root)
  }
qed

theorem newton_root_after_derivative_witness:
  "f_sq1 (Num (Rl 0)) = Inr (Num (Rl 1)) \<and> sc_abs (Rl 1) \<le> 2
   \<and> diff f_sq1 (Rl 0) = Inr (Rl 0) \<and> newton_loop (Suc 0) f_sq1 2 (Rl 0) = Inr (Rl 0)
   \<and> (1::int) \<le> 100 \<and> newton 0 f_sq1 2 (Some (Rl 0)) 100 = Some (Inr (Rl 0))"
proof -
  have h1: "f_sq1 (Num (Rl 0)) = Inr (Num (Rl 1))" by (simp add: f_sq1_def)
  have h2: "sc_abs (Rl 1) \<le> 2" by simp
  have h3: "diff f_sq1 (Rl 0) = Inr (Rl 0)" by (simp add: f_sq1_def diff_def mk_def)
  show ?thesis
    using h1 h2 h3
      newton_root_after_derivative[where f = f_sq1 and x = "Rl 0" and dfx = "Rl 0" and k = 0
        and max_iter = 100 and n = 0, OF h1 h2]
    by simp
qed

lemma newton_loop_stationary:
  assumes "f (Num x) = Inr (Num v)" and "eps < sc_abs v"
    and "diff f x = Inr dfx" and "is_zero dfx"
  shows "newton_loop (Suc k) f eps x = newton_loop k f eps (sc_add x (Rl eps))"
  using assms by simp

text \<open>
  Claim C9. In a pass where \<open>|fx| > epsilon\<close> and the derivative is zero, \<open>newton\<close>
  does not fail: it goes on to the next pass with \<open>x + epsilon\<close>, one pass of the budget
  spent and no Newton update applied. So a budget of one pass ends in the
  ConvergenceError, and when the next pass finds \<open>|f(x + epsilon)| \<le> epsilon\<close> the value
  returned is \<open>x + epsilon\<close>.
\<close>

theorem newton_stationary:
  assumes "f (Num x) = Inr (Num v)" and "eps < sc_abs v"
    and "diff f x = Inr dfx" and "is_zero dfx"
  shows "newton_loop (Suc k) f eps x = newton_loop k f eps (sc_add x (Rl eps))
       \<and> newton_loop (Suc 0) f eps x = Inl ConvergenceError
       \<and> (f (Num (sc_add x (Rl eps))) = Inr (Num v') \<and> sc_abs v' \<le> eps
            \<and> diff f (sc_add x (Rl eps)) = Inr dfx'
          \<longrightarrow> newton_loop (Suc (Suc k)) f eps x = Inr (sc_add x (Rl eps))
              \<and> (2 \<le> max_iter \<longrightarrow>
                   newton n f eps (Some x) max_iter = Some (Inr (sc_add x (Rl eps)))))"
proof (intro conjI impI)
  note step = newton_loop_stationary[where f = f and x = x, OF assms]
  show "newton_loop (Suc k) f eps x = newton_loop k f eps (sc_add x (Rl eps))"
    by (rule step)
  show "newton_loop (Suc 0) f eps x = Inl ConvergenceError"
    by (simp only: step newton_loop.simps(1))
  {
    assume nxt: "f (Num (sc_add x (Rl eps))) = Inr (Num v') \<and> sc_abs v' \<le> eps
            \<and> diff f (sc_add x (Rl eps)) = Inr dfx'"
    have root: "\<And>j. newton_loop (Suc j) f eps (sc_add x (Rl eps)) = Inr (sc_add x (Rl eps))"
      using nxt by simp
    show two: "newton_loop (Suc (Suc k)) f eps x = Inr (sc_add x (Rl eps))"
      by (simp only: step root)
    assume "2 \<le> max_iter"
    then obtain j where j: "nat max_iter = Suc (Suc j)"
      by (cases "nat max_iter"; cases "nat max_iter - 1") simp_all
    show "newton n f eps (Some x) max_iter = Some (Inr (sc_add x (Rl eps)))"
      by (simp only: newton_supplied j step root)
  }
qed

theorem newton_stationary_witness:
  "f_sqm1 (Num (Rl 0)) = Inr (Num (Rl (- 1))) \<and> 9 / 10 < sc_abs (Rl (- 1))
   \<and> diff f_sqm1 (Rl 0) = Inr (Rl 0) \<and> is_zero (Rl 0)
   \<and> f_sqm1 (Num (Rl (9 / 10))) = Inr (Num (Rl (- (19 / 100))))
   \<and> sc_abs (Rl (- (19 / 100))) \<le> 9 / 10
   \<and> diff f_sqm1 (Rl (9 / 10)) = Inr (Rl (9 / 5))
   \<and> newton_loop (Suc 0) f_sqm1 (9 / 10) (Rl 0) = Inl ConvergenceError
   \<and> newton_loop (Suc (Suc 0)) f_sqm1 (9 / 10) (Rl 0) = Inr (Rl (9 / 10))
   \<and> (2::int) \<le> 100
   \<and> newton 0 f_sqm1 (9 / 10) (Some (Rl 0)) 100 = Some (Inr (Rl (9 / 10)))"
proof -
  have h1: "f_sqm1 (Num (Rl 0)) = Inr (Num (Rl (- 1)))" by (simp add: f_sqm1_def)
  have h2: "9 / 10 < sc_abs (Rl (- 1))" by simp
  have h3: "diff f_sqm1 (Rl 0) = Inr (Rl 0)" by (simp add: f_sqm1_def diff_def mk_def)
  have h4: "is_zero (Rl 0)" by simp
  have h5: "f_sqm1 (Num (Rl (9 / 10))) = Inr (Num (Rl (- (19 / 100))))"
    by (simp add: f_sqm1_def)
  have h6: "sc_abs (Rl (- (19 / 100))) \<le> 9 / 10" by simp
  have h7: "diff f_sqm1 (Rl (9 / 10)) = Inr (Rl (9 / 5))"
    by (simp add: f_sqm1_def diff_def mk_def)
  show ?thesis
    using h1 h2 h3 h4 h5 h6 h7
      newton_stationary[where f = f_sqm1 and x = "Rl 0" and eps = "9 / 10" and k = 0
        and v' = "Rl (- (19 / 100))" and dfx' = "Rl (9 / 5)" and max_iter = 100 and n = 0,
        OF h1 h2 h3 h4]
    by simp
qed

end
